theory Spec2Isabelle
  imports Main "HOL-Library.Word"
begin

section \<open>The bounded best-first distance search of lib/Core/BFSearcher.cpp\<close>

text \<open>
  The searcher walks LLVM IR from a start instruction, keeps a priority queue of search
  states (instruction, distance so far, call stack) and returns the distance of the first
  state that the target predicate accepts, or \<open>-1\<close> converted to \<open>uint\<close>.

  \<open>uint\<close> is a 32-bit unsigned integer: additions wrap around.
\<close>

type_synonym uint = "32 word"

subsection \<open>The LLVM IR as the searcher reads it\<close>

text \<open>
  LLVM is an external library. The record lists the operations of it that the source
  calls; every function of the model takes such a record as its first argument.

  An instruction is a handle of type \<open>'p\<close>. A \<open>BasicBlock::iterator\<close> wraps the pointer to
  the instruction it designates and compares by that pointer, so iterators and
  \<open>Instruction*\<close> are the same handles here and \<open>&*it\<close> is \<open>it\<close> itself.

  \<^item> \<open>isNull p\<close>: \<open>&*p == NULL\<close>, the handle designates no instruction;
  \<^item> \<open>getParent p\<close>: \<open>p->getParent()\<close>;
  \<^item> \<open>instList b\<close>: the instructions of block \<open>b\<close> from \<open>b->begin()\<close> up to \<open>b->end()\<close>;
  \<^item> \<open>bbEnd b\<close>: \<open>b->end()\<close>;
  \<^item> \<open>getNext p\<close>: the iterator after \<open>++p\<close>;
  \<^item> \<open>successors b\<close>: \<open>succ_begin(b)\<close> up to \<open>succ_end(b)\<close>;
  \<^item> \<open>isaCallInst\<close>, \<open>isaReturnInst\<close>, \<open>isaTerminatorInst\<close>: \<open>llvm::isa<...>\<close>;
  \<^item> \<open>getCalledFunction p\<close>: \<open>CallInst::getCalledFunction()\<close>, \<open>None\<close> for the null
    pointer that an indirect call gives;
  \<^item> \<open>isIntrinsic f\<close>: \<open>f->isIntrinsic()\<close>;
  \<^item> \<open>blockList f\<close>: the basic blocks of \<open>f\<close>; \<open>f->empty()\<close> is \<open>blockList f = []\<close> and
    \<open>f->front()\<close> is its head.

  The operations are total functions of the handle. What LLVM does when one of them is
  applied to a handle that designates no instruction is not part of the model; the
  theorems hold for every way of fixing it.
\<close>

record ('p, 'b, 'f) Module =
  isNull :: "'p \<Rightarrow> bool"
  getParent :: "'p \<Rightarrow> 'b"
  instList :: "'b \<Rightarrow> 'p list"
  bbEnd :: "'b \<Rightarrow> 'p"
  getNext :: "'p \<Rightarrow> 'p"
  successors :: "'b \<Rightarrow> 'b list"
  isaCallInst :: "'p \<Rightarrow> bool"
  isaReturnInst :: "'p \<Rightarrow> bool"
  isaTerminatorInst :: "'p \<Rightarrow> bool"
  getCalledFunction :: "'p \<Rightarrow> 'f option"
  isIntrinsic :: "'f \<Rightarrow> bool"
  blockList :: "'f \<Rightarrow> 'b list"

text \<open>\<open>b->begin()\<close>: the first instruction of the list, \<open>b->end()\<close> when the list is empty.
  \<open>b->front()\<close> is \<open>*b->begin()\<close>.\<close>

definition bbBegin :: "('p, 'b, 'f) Module \<Rightarrow> 'b \<Rightarrow> 'p" where
  "bbBegin M b = (case instList M b of [] \<Rightarrow> bbEnd M b | i # _ \<Rightarrow> i)"

text \<open>The ways a run stops without returning: the \<open>assert\<close> of
  \<open>doSingleSearchIteration\<close>, the assertion inside \<open>llvm::cast\<close> when the argument is not
  of the requested class, and \<open>top()\<close> of an empty priority queue.\<close>

datatype failure = AssertionFailed | CastFailed | EmptyQueue

subsection \<open>Search states\<close>

text \<open>\<open>BFStackEntry\<close> and \<open>BFSearchState\<close> are declared in BFSearcher.h; their fields are the
  ones the source reads and writes: \<open>call\<close>, and \<open>instruction\<close>, \<open>distanceFromStart\<close>,
  \<open>stack\<close>.\<close>

datatype 'p BFStackEntry = BFStackEntry (call: 'p)

text \<open>The \<open>std::stack\<close> is a list whose head is the top.\<close>

record 'p BFSearchState =
  instruction :: 'p
  distanceFromStart :: uint
  stack :: "'p BFStackEntry list"

text \<open>The loop of \<open>getIteratorOnInstruction\<close> over the iterators \<open>II\<close> of the block.\<close>

fun skipBefore :: "'p \<Rightarrow> 'p list \<Rightarrow> 'p \<Rightarrow> 'p" where
  "skipBefore inst [] IE = IE"
| "skipBefore inst (II # rest) IE = (if II = inst then II else skipBefore inst rest IE)"

definition getIteratorOnInstruction :: "('p, 'b, 'f) Module \<Rightarrow> 'p \<Rightarrow> 'p" where
  "getIteratorOnInstruction M inst =
     (let bb = getParent M inst in skipBefore inst (instList M bb) (bbEnd M bb))"

text \<open>The constructor \<open>BFSearchState(Instruction*, uint, std::list<Instruction*>)\<close>: the
  list is pushed front to back, so its last element ends on top.\<close>

definition newBFSearchState ::
  "('p, 'b, 'f) Module \<Rightarrow> 'p \<Rightarrow> uint \<Rightarrow> 'p list \<Rightarrow> 'p BFSearchState" where
  "newBFSearchState M inst dist stk =
     \<lparr>instruction = getIteratorOnInstruction M inst,
      distanceFromStart = dist,
      stack = foldl (\<lambda>s it. BFStackEntry (getIteratorOnInstruction M it) # s) [] stk\<rparr>"

text \<open>The \<open>while\<close> loop of \<open>doesIntroduceRecursion\<close> over the copy of the stack, from the
  top down. \<open>llvm::cast<CallInst>\<close> asserts that its argument is a call instruction.\<close>

fun probeStack ::
  "('p, 'b, 'f) Module \<Rightarrow> 'f option \<Rightarrow> 'p BFStackEntry list \<Rightarrow> failure + bool" where
  "probeStack M nextcalled [] = Inr False"
| "probeStack M nextcalled (probe # stackCopy) =
     (if \<not> isaCallInst M (call probe) then Inl CastFailed
      else if nextcalled = getCalledFunction M (call probe) then Inr True
      else probeStack M nextcalled stackCopy)"

definition doesIntroduceRecursion ::
  "('p, 'b, 'f) Module \<Rightarrow> 'p BFSearchState \<Rightarrow> 'p BFStackEntry \<Rightarrow> failure + bool" where
  "doesIntroduceRecursion M this next =
     (if stack this = [] then Inr False
      else if \<not> isaCallInst M (call next) then Inl CastFailed
      else probeStack M (getCalledFunction M (call next)) (stack this))"

subsection \<open>The searcher\<close>

text \<open>
  The header BFSearcher.h declares the three limits and the two virtual functions
  \<open>isTheTarget\<close> and \<open>distanceToPass\<close>. They are parameters of the model: every
  theorem holds for all of their values. The limits have the type \<open>uint\<close> of the distance
  and of the counter they are compared with.
\<close>

record 'p Limits =
  maxDistance :: uint
  maxIterations :: uint
  maxQueueLength :: uint
  isTheTarget :: "'p BFSearchState \<Rightarrow> bool"
  distanceToPass :: "'p \<Rightarrow> uint"

text \<open>
  The members of the class: \<open>searchqueue\<close>, \<open>duplicateFilter\<close>, \<open>iterationCounter\<close>.

  \<open>pushed\<close> is a history variable and no member of the class: it lists the arguments of
  every \<open>searchqueue.push\<close> so far, latest first. No function reads it.
\<close>

record 'p BFSearcher =
  searchqueue :: "'p BFSearchState list"
  duplicateFilter :: "('p \<times> 'p BFStackEntry list) set"
  iterationCounter :: uint
  pushed :: "'p BFSearchState list"

text \<open>
  Modelled from the spec: the order of the priority queue \<open>searchqueue\<close>, which the
  comparison of two \<open>BFSearchState\<close> in BFSearcher.h decides. The frontier is ordered by
  \<open>distanceFromStart\<close> ascending and \<open>top()\<close> is a state of minimal distance; the order
  among states of equal distance is left open by the spec, here a new state goes before
  the older ones. The queue is the list of its states in that order: \<open>top()\<close> is the head
  and \<open>pop()\<close> leaves the tail.

  The duplicate filter is a \<open>std::set\<close> of pairs of an instruction and a stack.
\<close>

definition pq_push :: "'p BFSearchState \<Rightarrow> 'p BFSearchState list \<Rightarrow> 'p BFSearchState list" where
  "pq_push st q = insort_key distanceFromStart st q"

definition wasAddedEarlier ::
  "('p, 'b, 'f) Module \<Rightarrow> 'p BFSearcher \<Rightarrow> 'p BFSearchState \<Rightarrow> bool" where
  "wasAddedEarlier M S state =
     (if bbBegin M (getParent M (instruction state)) = instruction state
      then (instruction state, stack state) \<in> duplicateFilter S
      else False)"

definition rememberAsAdded ::
  "('p, 'b, 'f) Module \<Rightarrow> 'p BFSearcher \<Rightarrow> 'p BFSearchState \<Rightarrow> 'p BFSearcher" where
  "rememberAsAdded M S state =
     (if bbBegin M (getParent M (instruction state)) = instruction state
      then S\<lparr>duplicateFilter := insert (instruction state, stack state) (duplicateFilter S)\<rparr>
      else S)"

definition addToSearchQueue ::
  "('p, 'b, 'f) Module \<Rightarrow> 'p Limits \<Rightarrow> 'p BFSearcher \<Rightarrow> 'p BFSearchState \<Rightarrow> 'p BFSearcher" where
  "addToSearchQueue M C S state =
     (if \<not> wasAddedEarlier M S state \<and> length (searchqueue S) \<le> unat (maxQueueLength C)
      then rememberAsAdded M
             (S\<lparr>searchqueue := pq_push state (searchqueue S), pushed := state # pushed S\<rparr>)
             state
      else S)"

text \<open>The constructor \<open>BFSearchState(iterator, uint, std::stack)\<close> that
  \<open>enqueueInSearchQueue\<close> calls is declared in the header; it stores its three arguments.\<close>

definition enqueueInSearchQueue ::
  "('p, 'b, 'f) Module \<Rightarrow> 'p Limits \<Rightarrow> 'p BFSearcher \<Rightarrow> 'p BFSearchState \<Rightarrow> 'p \<Rightarrow>
     'p BFStackEntry list \<Rightarrow> 'p BFSearcher" where
  "enqueueInSearchQueue M C S oldState next newStack =
     addToSearchQueue M C S
       \<lparr>instruction = next,
        distanceFromStart = distanceFromStart oldState + distanceToPass C (instruction oldState),
        stack = newStack\<rparr>"

text \<open>\<open>top()\<close> and \<open>pop()\<close> of an empty queue are undefined in C++; the model stops there.\<close>

definition popFromSeachQueue ::
  "'p BFSearcher \<Rightarrow> failure + ('p BFSearchState \<times> 'p BFSearcher)" where
  "popFromSeachQueue S =
     (case searchqueue S of
        [] \<Rightarrow> Inl EmptyQueue
      | result # rest \<Rightarrow> Inr (result, S\<lparr>searchqueue := rest\<rparr>))"

text \<open>
  One expansion step. In \<open>enqueueInSearchQueue(curr, (++(curr.instruction))--, curr.stack)\<close>
  the second argument is the iterator after the current instruction, and the decrement
  puts \<open>curr.instruction\<close> back; the arguments are taken to be evaluated one after the
  other, so that \<open>oldState\<close> is \<open>curr\<close> at its own instruction.
\<close>

definition doSingleSearchIteration ::
  "('p, 'b, 'f) Module \<Rightarrow> 'p Limits \<Rightarrow> 'p BFSearcher \<Rightarrow> failure + 'p BFSearcher" where
  "doSingleSearchIteration M C S =
     (case popFromSeachQueue S of
        Inl e \<Rightarrow> Inl e
      | Inr (cur, S1) \<Rightarrow>
          if isNull M (instruction cur) then Inl AssertionFailed
          else if isaCallInst M (instruction cur) then
            (case getCalledFunction M (instruction cur) of
               Some called \<Rightarrow>
                 if \<not> isIntrinsic M called \<and> blockList M called \<noteq> [] then
                   (let next = BFStackEntry (instruction cur) in
                    case doesIntroduceRecursion M cur next of
                      Inl e \<Rightarrow> Inl e
                    | Inr True \<Rightarrow> Inr S1
                    | Inr False \<Rightarrow>
                        Inr (enqueueInSearchQueue M C S1 (cur\<lparr>stack := next # stack cur\<rparr>)
                               (bbBegin M (hd (blockList M called))) (next # stack cur)))
                 else
                   Inr (enqueueInSearchQueue M C S1 cur (getNext M (instruction cur))
                          (stack cur))
             | None \<Rightarrow>
                 Inr (enqueueInSearchQueue M C S1 cur (getNext M (instruction cur))
                        (stack cur)))
          else if isaReturnInst M (instruction cur) then
            (case stack cur of
               [] \<Rightarrow> Inr S1
             | gobackto # rest \<Rightarrow>
                 Inr (enqueueInSearchQueue M C S1 (cur\<lparr>stack := rest\<rparr>)
                        (getNext M (call gobackto)) rest))
          else if isaTerminatorInst M (instruction cur) then
            Inr (foldl (\<lambda>S' sit. enqueueInSearchQueue M C S' cur (bbBegin M sit) (stack cur))
                   S1 (successors M (getParent M (instruction cur))))
          else
            Inr (enqueueInSearchQueue M C S1 cur (getNext M (instruction cur))
                   (stack cur)))"

text \<open>
  \<open>searchForMinimalDistance\<close>. The result is the value returned, \<open>Inr\<close>, or the failure
  that ended the run, \<open>Inl\<close>, together with the searcher as it stood at the head of the
  loop when the run ended. \<open>return -1\<close> in a function of type \<open>uint\<close> gives the largest
  value of the type.
\<close>

definition UNREACHABLE :: uint where
  "UNREACHABLE = - 1"

text \<open>The condition of the \<open>while\<close> loop.\<close>

definition keepSearching :: "'p Limits \<Rightarrow> 'p BFSearcher \<Rightarrow> bool" where
  "keepSearching C S \<longleftrightarrow>
     searchqueue S \<noteq> [] \<and>
     distanceFromStart (hd (searchqueue S)) < maxDistance C \<and>
     iterationCounter S < maxIterations C"

function searchForMinimalDistance ::
  "('p, 'b, 'f) Module \<Rightarrow> 'p Limits \<Rightarrow> 'p BFSearcher \<Rightarrow> (failure + uint) \<times> 'p BFSearcher" where
  "searchForMinimalDistance M C S =
     (if keepSearching C S
      then
        if isTheTarget C (hd (searchqueue S))
        then (Inr (distanceFromStart (hd (searchqueue S))), S)
        else (case doSingleSearchIteration M C S of
                Inl e \<Rightarrow> (Inl e, S)
              | Inr S' \<Rightarrow>
                  searchForMinimalDistance M C (S'\<lparr>iterationCounter := iterationCounter S' + 1\<rparr>))
      else (Inr UNREACHABLE, S))"
  by pat_completeness auto
termination
proof (relation "measure (\<lambda>(M, C, S). unat (maxIterations C) - unat (iterationCounter S))")
  show "wf (measure (\<lambda>(M, C, S). unat (maxIterations C) - unat (iterationCounter S)))"
    by simp
next
  fix M :: "('p, 'b, 'f) Module" and C :: "'p Limits" and S S' :: "'p BFSearcher"
  assume run: "keepSearching C S"
    and step: "doSingleSearchIteration M C S = Inr S'"
  have enq: "iterationCounter (enqueueInSearchQueue M C T old nxt stk) = iterationCounter T"
    for T old nxt stk
    by (simp add: enqueueInSearchQueue_def addToSearchQueue_def rememberAsAdded_def)
  have loop: "iterationCounter
        (foldl (\<lambda>S' sit. enqueueInSearchQueue M C S' old (bbBegin M sit) stk) T bs)
      = iterationCounter T" for T old stk bs
    by (induction bs arbitrary: T) (simp_all add: enq)
  from step have same: "iterationCounter S' = iterationCounter S"
    by (auto simp: doSingleSearchIteration_def popFromSeachQueue_def Let_def enq loop
        split: list.splits option.splits if_splits sum.splits bool.splits)
  from run have less: "iterationCounter S < maxIterations C"
    by (simp add: keepSearching_def)
  then have "unat (iterationCounter S) < unat (maxIterations C)"
    by (simp add: word_less_nat_alt)
  moreover have "unat (iterationCounter S + 1) = Suc (unat (iterationCounter S))"
  proof -
    have "iterationCounter S \<noteq> - 1"
      using less by (metis word_order.extremum_strict)
    then have "1 + iterationCounter S \<noteq> 0"
      by (metis add.commute add_neg_numeral_special(8) add_right_cancel)
    then have "unat (1 + iterationCounter S) = Suc (unat (iterationCounter S))"
      by (rule unatSuc)
    then show ?thesis
      by (simp add: add.commute)
  qed
  ultimately show "((M, C, S'\<lparr>iterationCounter := iterationCounter S' + 1\<rparr>), (M, C, S))
      \<in> measure (\<lambda>(M, C, S). unat (maxIterations C) - unat (iterationCounter S))"
    using same by simp
qed

declare searchForMinimalDistance.simps [simp del]

text \<open>
  The two constructors of \<open>BFSearcher\<close>. The members start empty, the start state is added
  and the counter is set to zero; nothing reads the counter before. \<open>BFSearchState(start, 0)\<close>
  leaves the third argument to its default in the header, the empty list.
\<close>

definition emptyBFSearcher :: "'p BFSearcher" where
  "emptyBFSearcher = \<lparr>searchqueue = [], duplicateFilter = {}, iterationCounter = 0, pushed = []\<rparr>"

definition newBFSearcher ::
  "('p, 'b, 'f) Module \<Rightarrow> 'p Limits \<Rightarrow> 'p \<Rightarrow> 'p BFSearcher" where
  "newBFSearcher M C start =
     (addToSearchQueue M C emptyBFSearcher (newBFSearchState M start 0 []))
       \<lparr>iterationCounter := 0\<rparr>"

definition newBFSearcherWithStack ::
  "('p, 'b, 'f) Module \<Rightarrow> 'p Limits \<Rightarrow> 'p \<Rightarrow> 'p list \<Rightarrow> 'p BFSearcher" where
  "newBFSearcherWithStack M C start stk =
     (addToSearchQueue M C emptyBFSearcher (newBFSearchState M start 0 stk))
       \<lparr>iterationCounter := 0\<rparr>"

subsection \<open>Notions used in the statements\<close>

text \<open>The key under which the duplicate filter stores a state, and the test that both
  \<open>wasAddedEarlier\<close> and \<open>rememberAsAdded\<close> make before they touch the filter.\<close>

definition filterKey :: "'p BFSearchState \<Rightarrow> 'p \<times> 'p BFStackEntry list" where
  "filterKey state = (instruction state, stack state)"

definition firstInBlock :: "('p, 'b, 'f) Module \<Rightarrow> 'p BFSearchState \<Rightarrow> bool" where
  "firstInBlock M state \<longleftrightarrow> bbBegin M (getParent M (instruction state)) = instruction state"

text \<open>Among the states pushed so far, those at the first instruction of a block have
  pairwise different keys.\<close>

definition admittedOnce :: "('p, 'b, 'f) Module \<Rightarrow> 'p BFSearcher \<Rightarrow> bool" where
  "admittedOnce M S \<longleftrightarrow> distinct (map filterKey (filter (firstInBlock M) (pushed S)))"

definition filterInv :: "('p, 'b, 'f) Module \<Rightarrow> 'p BFSearcher \<Rightarrow> bool" where
  "filterInv M S \<longleftrightarrow>
     admittedOnce M S \<and>
     filterKey ` {st \<in> set (pushed S). firstInBlock M st} \<subseteq> duplicateFilter S"

text \<open>Every entry of every stack in the frontier is a call instruction.\<close>

definition callStacks :: "('p, 'b, 'f) Module \<Rightarrow> 'p BFSearcher \<Rightarrow> bool" where
  "callStacks M S \<longleftrightarrow>
     (\<forall>st\<in>set (searchqueue S). \<forall>e\<in>set (stack st). isaCallInst M (call e))"

subsection \<open>An example program\<close>

text \<open>
  Instruction \<open>10 * b + i\<close> is the \<open>i\<close>-th instruction of block \<open>b\<close>; \<open>10 * b + 9\<close> is
  \<open>end()\<close> of block \<open>b\<close> and designates no instruction.

  \<^item> function 0, blocks 0, 2, 3: block 0 is \<open>call f1; call <indirect>; br 2, 3\<close>, block 2 is
    \<open>add; ret\<close>, block 3 is a lone \<open>add\<close> with no terminator after it;
  \<^item> function 1, block 1: \<open>call f0; ret\<close>;
  \<^item> function 2 is an intrinsic and function 3 a declaration, both without blocks;
  \<^item> function 4, block 4: \<open>call f2; call f3; ret\<close>;
  \<^item> function 5, block 5: \<open>add; add; ret\<close>.
\<close>

definition exModule :: "(nat, nat, nat) Module" where
  "exModule =
     \<lparr>isNull = (\<lambda>p. p mod 10 = 9),
      getParent = (\<lambda>p. p div 10),
      instList = (\<lambda>b. if b = 0 then [0, 1, 2] else if b = 1 then [10, 11]
                      else if b = 2 then [20, 21] else if b = 3 then [30]
                      else if b = 4 then [40, 41, 42] else if b = 5 then [50, 51, 52]
                      else []),
      bbEnd = (\<lambda>b. 10 * b + 9),
      getNext = (\<lambda>p. if p = 30 then 39 else p + 1),
      successors = (\<lambda>b. if b = 0 then [2, 3] else []),
      isaCallInst = (\<lambda>p. p = 0 \<or> p = 1 \<or> p = 10 \<or> p = 40 \<or> p = 41),
      isaReturnInst = (\<lambda>p. p = 11 \<or> p = 21 \<or> p = 42 \<or> p = 52),
      isaTerminatorInst = (\<lambda>p. p = 2 \<or> p = 11 \<or> p = 21 \<or> p = 42 \<or> p = 52),
      getCalledFunction = (\<lambda>p. if p = 0 then Some 1 else if p = 10 then Some 0
                               else if p = 40 then Some 2 else if p = 41 then Some 3
                               else None),
      isIntrinsic = (\<lambda>f. f = 2),
      blockList = (\<lambda>f. if f = 0 then [0, 2, 3] else if f = 1 then [1]
                       else if f = 4 then [4] else if f = 5 then [5] else [])\<rparr>"

text \<open>Limits with a frontier of at most one state, unit weights and the target at
  instruction \<open>t\<close>.\<close>

definition exLimits :: "nat \<Rightarrow> nat Limits" where
  "exLimits t =
     \<lparr>maxDistance = 100, maxIterations = 50, maxQueueLength = 1,
      isTheTarget = (\<lambda>st. instruction st = t),
      distanceToPass = (\<lambda>p. 1)\<rparr>"

text \<open>A searcher whose frontier holds the one state \<open>(p, d, stk)\<close>.\<close>

definition exSearcher :: "nat \<Rightarrow> uint \<Rightarrow> nat list \<Rightarrow> nat BFSearcher" where
  "exSearcher p d stk =
     \<lparr>searchqueue = [\<lparr>instruction = p, distanceFromStart = d, stack = map BFStackEntry stk\<rparr>],
      duplicateFilter = {}, iterationCounter = 0, pushed = []\<rparr>"

section \<open>Properties\<close>

subsection \<open>Invariants of a step and of the loop\<close>

lemma newBFSearcher_eq:
  "newBFSearcher M C start = newBFSearcherWithStack M C start []"
  by (simp add: newBFSearcher_def newBFSearcherWithStack_def)

lemma foldl_enqueue_invariant:
  assumes "P S"
    and "\<And>S st. P S \<Longrightarrow> P (addToSearchQueue M C S st)"
  shows "P (foldl (\<lambda>S' sit. enqueueInSearchQueue M C S' old (g sit) stk) S bs)"
  using assms(1)
  by (induction bs arbitrary: S) (simp_all add: enqueueInSearchQueue_def assms(2))

text \<open>What popping and adding preserve, an expansion step preserves.\<close>

lemma doSingleSearchIteration_invariant:
  assumes step: "doSingleSearchIteration M C S = Inr S'"
    and start: "P S"
    and pop: "\<And>S cur rest. P S \<Longrightarrow> searchqueue S = cur # rest \<Longrightarrow> P (S\<lparr>searchqueue := rest\<rparr>)"
    and add: "\<And>S st. P S \<Longrightarrow> P (addToSearchQueue M C S st)"
  shows "P S'"
proof (cases "searchqueue S")
  case Nil
  with step show ?thesis
    by (simp add: doSingleSearchIteration_def popFromSeachQueue_def)
next
  case (Cons cur rest)
  let ?S1 = "S\<lparr>searchqueue := rest\<rparr>"
  have popped: "P ?S1"
    using start Cons by (rule pop)
  have enq: "P (enqueueInSearchQueue M C ?S1 old nxt stk)" for old nxt stk
    by (simp add: enqueueInSearchQueue_def add popped)
  have loop: "P (foldl (\<lambda>S' sit. enqueueInSearchQueue M C S' cur (bbBegin M sit) (stack cur))
                   ?S1 bs)" for bs
    using popped add by (rule foldl_enqueue_invariant)
  from step Cons show ?thesis
    by (auto simp: doSingleSearchIteration_def popFromSeachQueue_def Let_def popped enq loop
        split: option.splits if_splits sum.splits bool.splits list.splits)
qed

text \<open>What every completed round of the loop preserves holds of the searcher at the end
  of the run.\<close>

lemma searchForMinimalDistance_invariant:
  assumes "P S"
    and "\<And>S S'. P S \<Longrightarrow> keepSearching C S \<Longrightarrow> doSingleSearchIteration M C S = Inr S' \<Longrightarrow>
           P (S'\<lparr>iterationCounter := iterationCounter S' + 1\<rparr>)"
  shows "P (snd (searchForMinimalDistance M C S))"
  using assms
proof (induction M C S rule: searchForMinimalDistance.induct)
  case (1 M C S)
  note start = "1.prems"(1) and step = "1.prems"(2)
  show ?case
  proof (cases "keepSearching C S \<and> \<not> isTheTarget C (hd (searchqueue S))")
    case False
    with start show ?thesis
      by (auto simp: searchForMinimalDistance.simps [of M C S])
  next
    case run: True
    show ?thesis
    proof (cases "doSingleSearchIteration M C S")
      case (Inl e)
      with run start show ?thesis
        by (simp add: searchForMinimalDistance.simps [of M C S])
    next
      case (Inr S1)
      from run have r1: "keepSearching C S" and r2: "\<not> isTheTarget C (hd (searchqueue S))"
        by simp_all
      have "P (S1\<lparr>iterationCounter := iterationCounter S1 + 1\<rparr>)"
        using start r1 Inr by (rule step)
      from "1.IH" [OF r1 r2 Inr this step] run Inr show ?thesis
        by (simp add: searchForMinimalDistance.simps [of M C S])
    qed
  qed
qed

lemma iterationCounter_doSingleSearchIteration:
  assumes "doSingleSearchIteration M C S = Inr S'"
  shows "iterationCounter S' = iterationCounter S"
  using assms
  by (rule doSingleSearchIteration_invariant [where P = "\<lambda>T. iterationCounter T = iterationCounter S"])
    (simp_all add: addToSearchQueue_def rememberAsAdded_def)

lemma counter_bound_searchForMinimalDistance:
  assumes "iterationCounter S \<le> maxIterations C"
  shows "iterationCounter (snd (searchForMinimalDistance M C S)) \<le> maxIterations C"
proof (rule searchForMinimalDistance_invariant
    [where P = "\<lambda>S. iterationCounter S \<le> maxIterations C", OF assms])
  fix S S' :: "'a BFSearcher"
  assume run: "keepSearching C S" and step: "doSingleSearchIteration M C S = Inr S'"
  from step have "iterationCounter S' = iterationCounter S"
    by (rule iterationCounter_doSingleSearchIteration)
  moreover from run have "iterationCounter S < maxIterations C"
    by (simp add: keepSearching_def)
  ultimately show "iterationCounter (S'\<lparr>iterationCounter := iterationCounter S' + 1\<rparr>)
      \<le> maxIterations C"
    by (simp add: inc_le)
qed

text \<open>A run that ends in a failure ends inside the loop.\<close>

lemma failure_inside_loop:
  "fst (searchForMinimalDistance M C S) = Inl e \<Longrightarrow>
   keepSearching C (snd (searchForMinimalDistance M C S))"
proof (induction M C S rule: searchForMinimalDistance.induct)
  case (1 M C S)
  show ?case
  proof (cases "keepSearching C S \<and> \<not> isTheTarget C (hd (searchqueue S))")
    case False
    with "1.prems" show ?thesis
      by (auto simp: searchForMinimalDistance.simps [of M C S] split: if_splits)
  next
    case run: True
    show ?thesis
    proof (cases "doSingleSearchIteration M C S")
      case (Inl e)
      with run show ?thesis
        by (simp add: searchForMinimalDistance.simps [of M C S])
    next
      case (Inr S1)
      from run have r1: "keepSearching C S" and r2: "\<not> isTheTarget C (hd (searchqueue S))"
        by simp_all
      from "1.prems" run Inr
      have "fst (searchForMinimalDistance M C (S1\<lparr>iterationCounter := iterationCounter S1 + 1\<rparr>))
          = Inl e"
        by (simp add: searchForMinimalDistance.simps [of M C S])
      from "1.IH" [OF r1 r2 Inr this] run Inr show ?thesis
        by (simp add: searchForMinimalDistance.simps [of M C S])
    qed
  qed
qed

text \<open>A value returned is the sentinel, after the loop, or the distance of the target on
  top of the frontier, from inside the loop.\<close>

lemma sentinel_not_below:
  fixes v m :: uint
  assumes "v < m"
  shows "v \<noteq> UNREACHABLE"
  using assms unfolding UNREACHABLE_def
  by (metis word_order.extremum_strict)

lemma searchForMinimalDistance_returns:
  "searchForMinimalDistance M C S = (Inr v, S') \<Longrightarrow>
     (\<not> keepSearching C S' \<and> v = UNREACHABLE) \<or>
     (keepSearching C S' \<and> isTheTarget C (hd (searchqueue S')) \<and>
      v = distanceFromStart (hd (searchqueue S')))"
proof (induction M C S rule: searchForMinimalDistance.induct)
  case (1 M C S)
  show ?case
  proof (cases "keepSearching C S")
    case False
    with "1.prems" show ?thesis
      by (simp add: searchForMinimalDistance.simps [of M C S])
  next
    case run: True
    show ?thesis
    proof (cases "isTheTarget C (hd (searchqueue S))")
      case True
      with run "1.prems" show ?thesis
        by (auto simp: searchForMinimalDistance.simps [of M C S])
    next
      case noTarget: False
      show ?thesis
      proof (cases "doSingleSearchIteration M C S")
        case (Inl e)
        with run noTarget "1.prems" show ?thesis
          by (simp add: searchForMinimalDistance.simps [of M C S])
      next
        case (Inr S1)
        with run noTarget "1.prems"
        have "searchForMinimalDistance M C (S1\<lparr>iterationCounter := iterationCounter S1 + 1\<rparr>)
                = (Inr v, S')"
          by (simp add: searchForMinimalDistance.simps [of M C S])
        with "1.IH" [OF run noTarget Inr] show ?thesis .
      qed
    qed
  qed
qed

lemma probeStack_calls:
  "\<forall>e\<in>set stk. isaCallInst M (call e) \<Longrightarrow>
   probeStack M nc stk = Inr (\<exists>e\<in>set stk. getCalledFunction M (call e) = nc)"
  by (induction stk) auto

text \<open>The duplicate filter holds the key of every state pushed at the head of a block.\<close>

lemma filterInv_addToSearchQueue:
  assumes "filterInv M S"
  shows "filterInv M (addToSearchQueue M C S st)"
  using assms
  by (auto simp: filterInv_def admittedOnce_def addToSearchQueue_def rememberAsAdded_def
      wasAddedEarlier_def firstInBlock_def filterKey_def)

lemma filterInv_pop:
  "filterInv M S \<Longrightarrow> filterInv M (S\<lparr>searchqueue := rest\<rparr>)"
  by (simp add: filterInv_def admittedOnce_def)

lemma filterInv_searchForMinimalDistance:
  assumes "filterInv M S"
  shows "filterInv M (snd (searchForMinimalDistance M C S))"
proof (rule searchForMinimalDistance_invariant [where P = "filterInv M", OF assms])
  fix S S' :: "'a BFSearcher"
  assume inv: "filterInv M S" and step: "doSingleSearchIteration M C S = Inr S'"
  have "filterInv M S'"
    using step inv filterInv_pop filterInv_addToSearchQueue
    by (rule doSingleSearchIteration_invariant [where P = "filterInv M"])
  then show "filterInv M (S'\<lparr>iterationCounter := iterationCounter S' + 1\<rparr>)"
    by (simp add: filterInv_def admittedOnce_def)
qed

lemma filterInv_new:
  "filterInv M (newBFSearcherWithStack M C start stk)"
proof -
  have "filterInv M (emptyBFSearcher :: 'a BFSearcher)"
    by (simp add: filterInv_def admittedOnce_def emptyBFSearcher_def)
  then have "filterInv M (addToSearchQueue M C emptyBFSearcher (newBFSearchState M start 0 stk))"
    by (rule filterInv_addToSearchQueue)
  then show ?thesis
    by (simp add: newBFSearcherWithStack_def filterInv_def admittedOnce_def)
qed

text \<open>
  Where no handle is invalid and the stacks in the frontier hold call instructions only,
  no assertion fails: a step ends with a searcher and the loop with a value.
\<close>

lemma callStacks_addToSearchQueue:
  assumes "callStacks M S" and "\<forall>e\<in>set (stack st). isaCallInst M (call e)"
  shows "callStacks M (addToSearchQueue M C S st)"
  using assms
  by (auto simp: callStacks_def addToSearchQueue_def rememberAsAdded_def pq_push_def
      set_insort_key)

lemma callStacks_foldl:
  assumes "callStacks M S" and "\<forall>e\<in>set stk. isaCallInst M (call e)"
  shows "callStacks M (foldl (\<lambda>S' sit. enqueueInSearchQueue M C S' old (g sit) stk) S bs)"
  using assms(1)
  by (induction bs arbitrary: S)
    (simp_all add: enqueueInSearchQueue_def callStacks_addToSearchQueue assms(2))

lemma doesIntroduceRecursion_returns:
  assumes "isaCallInst M (call nextEntry)" and "\<forall>e\<in>set (stack st). isaCallInst M (call e)"
  shows "\<exists>b. doesIntroduceRecursion M st nextEntry = Inr b"
  using assms by (auto simp: doesIntroduceRecursion_def probeStack_calls)

lemma doSingleSearchIteration_returns:
  assumes inv: "callStacks M S" and valid: "\<forall>p. \<not> isNull M p" and nonempty: "searchqueue S \<noteq> []"
  shows "\<exists>S'. doSingleSearchIteration M C S = Inr S' \<and> callStacks M S'"
proof -
  from nonempty obtain cur rest where q: "searchqueue S = cur # rest"
    by (cases "searchqueue S") auto
  let ?S1 = "S\<lparr>searchqueue := rest\<rparr>"
  from inv q have entries: "\<forall>e\<in>set (stack cur). isaCallInst M (call e)"
    and popped: "callStacks M ?S1"
    by (simp_all add: callStacks_def)
  have enq: "callStacks M (enqueueInSearchQueue M C ?S1 old nxt stk)"
    if "\<forall>e\<in>set stk. isaCallInst M (call e)" for old nxt stk
    using popped that by (simp add: enqueueInSearchQueue_def callStacks_addToSearchQueue)
  have loop: "callStacks M
      (foldl (\<lambda>S' sit. enqueueInSearchQueue M C S' cur (bbBegin M sit) (stack cur)) ?S1 bs)"
    for bs
    using popped entries by (rule callStacks_foldl)
  show ?thesis
  proof (cases "isaCallInst M (instruction cur)")
    case True
    then obtain b where "doesIntroduceRecursion M cur (BFStackEntry (instruction cur)) = Inr b"
      using doesIntroduceRecursion_returns [of M "BFStackEntry (instruction cur)" cur] entries
      by auto
    with True q valid entries popped show ?thesis
      by (auto simp: doSingleSearchIteration_def popFromSeachQueue_def Let_def enq
          split: option.splits bool.splits)
  next
    case False
    with q valid entries popped show ?thesis
      by (auto simp: doSingleSearchIteration_def popFromSeachQueue_def Let_def enq loop
          split: list.splits)
  qed
qed

lemma searchForMinimalDistance_always_returns:
  assumes "callStacks M S" and "\<forall>p. \<not> isNull M p"
  shows "\<exists>v. fst (searchForMinimalDistance M C S) = Inr v"
  using assms
proof (induction M C S rule: searchForMinimalDistance.induct)
  case (1 M C S)
  show ?case
  proof (cases "keepSearching C S \<and> \<not> isTheTarget C (hd (searchqueue S))")
    case False
    then show ?thesis
      by (auto simp: searchForMinimalDistance.simps [of M C S])
  next
    case run: True
    then have r1: "keepSearching C S" and r2: "\<not> isTheTarget C (hd (searchqueue S))"
      by simp_all
    from r1 have "searchqueue S \<noteq> []"
      by (simp add: keepSearching_def)
    with "1.prems" obtain S1 where step: "doSingleSearchIteration M C S = Inr S1"
      and inv: "callStacks M S1"
      using doSingleSearchIteration_returns by blast
    from inv have "callStacks M (S1\<lparr>iterationCounter := iterationCounter S1 + 1\<rparr>)"
      by (simp add: callStacks_def)
    from "1.IH" [OF r1 r2 step this "1.prems"(2)] run step show ?thesis
      by (simp add: searchForMinimalDistance.simps [of M C S])
  qed
qed

lemma foldl_push:
  "foldl (\<lambda>s it. f it # s) acc xs = rev (map f xs) @ acc"
  by (induction xs arbitrary: acc) simp_all

lemma callStacks_new:
  assumes "\<forall>it\<in>set stk. isaCallInst M (getIteratorOnInstruction M it)"
  shows "callStacks M (newBFSearcherWithStack M C start stk)"
proof -
  have "callStacks M (emptyBFSearcher :: 'a BFSearcher)"
    by (simp add: callStacks_def emptyBFSearcher_def)
  moreover have "\<forall>e\<in>set (stack (newBFSearchState M start 0 stk)). isaCallInst M (call e)"
    using assms by (auto simp: newBFSearchState_def foldl_push)
  ultimately have "callStacks M
      (addToSearchQueue M C emptyBFSearcher (newBFSearchState M start 0 stk))"
    by (rule callStacks_addToSearchQueue)
  then show ?thesis
    by (simp add: newBFSearcherWithStack_def callStacks_def)
qed

text \<open>A state that the filter does not know is pushed onto a frontier that holds
  \<open>maxQueueLength\<close> states already, whatever the limit is.\<close>

lemma addToSearchQueue_at_limit:
  assumes "length (searchqueue S) = unat (maxQueueLength C)"
    and "\<not> wasAddedEarlier M S st"
  shows "length (searchqueue (addToSearchQueue M C S st)) = unat (maxQueueLength C) + 1"
  using assms
  by (simp add: addToSearchQueue_def rememberAsAdded_def pq_push_def)

text \<open>The frontier holds at most one state more than \<open>maxQueueLength\<close>.\<close>

lemma frontier_size_bound:
  "length (searchqueue (snd (searchForMinimalDistance M C (newBFSearcherWithStack M C start stk))))
     \<le> unat (maxQueueLength C) + 1"
proof (rule searchForMinimalDistance_invariant
    [where P = "\<lambda>S. length (searchqueue S) \<le> unat (maxQueueLength C) + 1"])
  show "length (searchqueue (newBFSearcherWithStack M C start stk)) \<le> unat (maxQueueLength C) + 1"
    by (simp add: newBFSearcherWithStack_def addToSearchQueue_def rememberAsAdded_def
        pq_push_def emptyBFSearcher_def)
next
  fix S S' :: "'a BFSearcher"
  assume "length (searchqueue S) \<le> unat (maxQueueLength C) + 1"
    and "doSingleSearchIteration M C S = Inr S'"
  from this(2,1) have "length (searchqueue S') \<le> unat (maxQueueLength C) + 1"
    by (rule doSingleSearchIteration_invariant
        [where P = "\<lambda>S. length (searchqueue S) \<le> unat (maxQueueLength C) + 1"])
      (simp_all add: addToSearchQueue_def rememberAsAdded_def pq_push_def)
  then show "length (searchqueue (S'\<lparr>iterationCounter := iterationCounter S' + 1\<rparr>))
      \<le> unat (maxQueueLength C) + 1"
    by simp
qed

subsection \<open>Evaluating runs of the example\<close>

lemmas ex_defs = exModule_def exLimits_def exSearcher_def

lemmas run_defs = keepSearching_def doSingleSearchIteration_def
  popFromSeachQueue_def enqueueInSearchQueue_def addToSearchQueue_def wasAddedEarlier_def
  rememberAsAdded_def bbBegin_def pq_push_def newBFSearcher_def newBFSearcherWithStack_def
  newBFSearchState_def getIteratorOnInstruction_def emptyBFSearcher_def
  doesIntroduceRecursion_def UNREACHABLE_def Let_def

section \<open>The claims\<close>

text \<open>
  Claim C1: during a query the frontier never holds more than \<open>maxQueueLength\<close> states.

  \<open>addToSearchQueue\<close> compares with \<open>size() <= maxQueueLength\<close> before it pushes, so it still
  pushes onto a frontier that holds \<open>maxQueueLength\<close> states already. In the example the
  limit is 1; the search starts at the branch at instruction 2, whose expansion adds both
  successor blocks, and returns the distance 1 of the target with two states in the
  frontier.
\<close>

theorem frontier_exceeds_maxQueueLength:
  "maxQueueLength (exLimits 30) = 1 \<and>
   fst (searchForMinimalDistance exModule (exLimits 30) (newBFSearcher exModule (exLimits 30) 2))
     = Inr 1 \<and>
   searchqueue
     (snd (searchForMinimalDistance exModule (exLimits 30) (newBFSearcher exModule (exLimits 30) 2)))
     = [\<lparr>instruction = 30, distanceFromStart = 1, stack = []\<rparr>,
        \<lparr>instruction = 20, distanceFromStart = 1, stack = []\<rparr>]"
  by (simp add: searchForMinimalDistance.simps run_defs ex_defs)

text \<open>
  Claim C2: the popped state is at a call of a function \<open>F\<close> that is resolved, not an
  intrinsic and has a body. If \<open>doesIntroduceRecursion\<close> answers true for the entry of this
  call site, the step only removes the popped state. Otherwise the step hands exactly one
  state to \<open>addToSearchQueue\<close>: at the first instruction of the first block of \<open>F\<close>, with the
  popped distance plus \<open>distanceToPass\<close> of the call (a sum of \<open>uint\<close>) and with the entry of
  the call site on top of the popped stack.
\<close>

theorem call_defined_function:
  assumes "searchqueue S = cur # rest"
    and "\<not> isNull M (instruction cur)"
    and "isaCallInst M (instruction cur)"
    and "getCalledFunction M (instruction cur) = Some F"
    and "\<not> isIntrinsic M F" and "blockList M F \<noteq> []"
    and "doesIntroduceRecursion M cur (BFStackEntry (instruction cur)) = Inr recursion"
  shows "doSingleSearchIteration M C S =
     Inr (if recursion then S\<lparr>searchqueue := rest\<rparr>
          else addToSearchQueue M C (S\<lparr>searchqueue := rest\<rparr>)
                 \<lparr>instruction = bbBegin M (hd (blockList M F)),
                  distanceFromStart = distanceFromStart cur + distanceToPass C (instruction cur),
                  stack = BFStackEntry (instruction cur) # stack cur\<rparr>)"
  using assms
  by (simp add: doSingleSearchIteration_def popFromSeachQueue_def enqueueInSearchQueue_def)

theorem call_defined_function_witness:
  "doesIntroduceRecursion exModule \<lparr>instruction = 0, distanceFromStart = 0, stack = []\<rparr>
       (BFStackEntry 0) = Inr False \<and>
   doSingleSearchIteration exModule (exLimits 99) (exSearcher 0 0 []) =
     Inr \<lparr>searchqueue = [\<lparr>instruction = 10, distanceFromStart = 1, stack = [BFStackEntry 0]\<rparr>],
          duplicateFilter = {(10, [BFStackEntry 0])}, iterationCounter = 0,
          pushed = [\<lparr>instruction = 10, distanceFromStart = 1, stack = [BFStackEntry 0]\<rparr>]\<rparr> \<and>
   doesIntroduceRecursion exModule
       \<lparr>instruction = 0, distanceFromStart = 2, stack = [BFStackEntry 10, BFStackEntry 0]\<rparr>
       (BFStackEntry 0) = Inr True \<and>
   doSingleSearchIteration exModule (exLimits 99) (exSearcher 0 2 [10, 0]) =
     Inr \<lparr>searchqueue = [], duplicateFilter = {}, iterationCounter = 0, pushed = []\<rparr>"
  using call_defined_function [where M = exModule and C = "exLimits 99"
      and S = "exSearcher 0 0 []" and rest = "[]" and F = 1 and recursion = False
      and cur = "\<lparr>instruction = 0, distanceFromStart = 0, stack = []\<rparr>"]
    call_defined_function [where M = exModule and C = "exLimits 99"
      and S = "exSearcher 0 2 [10, 0]" and rest = "[]" and F = 1 and recursion = True
      and cur = "\<lparr>instruction = 0, distanceFromStart = 2,
                  stack = [BFStackEntry 10, BFStackEntry 0]\<rparr>"]
  by (simp add: ex_defs doesIntroduceRecursion_def addToSearchQueue_def wasAddedEarlier_def
      rememberAsAdded_def bbBegin_def pq_push_def)

text \<open>
  Claim C3: \<open>doesIntroduceRecursion\<close> answers false on an empty stack. When the probed entry
  and all entries of the stack are call instructions, so that every \<open>llvm::cast\<close> succeeds,
  it answers true exactly if \<open>getCalledFunction\<close> of some entry of the stack equals
  \<open>getCalledFunction\<close> of the probed entry. The callee of an indirect call is the null
  pointer, which equals the callee of another indirect call only.
\<close>

theorem doesIntroduceRecursion_iff:
  "(stack st = [] \<longrightarrow> doesIntroduceRecursion M st nextEntry = Inr False) \<and>
   (isaCallInst M (call nextEntry) \<and> (\<forall>e\<in>set (stack st). isaCallInst M (call e)) \<longrightarrow>
      doesIntroduceRecursion M st nextEntry =
        Inr (\<exists>e\<in>set (stack st).
               getCalledFunction M (call e) = getCalledFunction M (call nextEntry)))"
  by (simp add: doesIntroduceRecursion_def probeStack_calls)

theorem doesIntroduceRecursion_iff_witness:
  "doesIntroduceRecursion exModule \<lparr>instruction = 1, distanceFromStart = 0, stack = []\<rparr>
       (BFStackEntry 1) = Inr False \<and>
   doesIntroduceRecursion exModule
       \<lparr>instruction = 0, distanceFromStart = 2, stack = [BFStackEntry 10, BFStackEntry 0]\<rparr>
       (BFStackEntry 0) = Inr True \<and>
   doesIntroduceRecursion exModule
       \<lparr>instruction = 10, distanceFromStart = 1, stack = [BFStackEntry 0]\<rparr>
       (BFStackEntry 10) = Inr False"
  using doesIntroduceRecursion_iff [where M = exModule and nextEntry = "BFStackEntry 1"
      and st = "\<lparr>instruction = 1, distanceFromStart = 0, stack = []\<rparr>"]
    doesIntroduceRecursion_iff [where M = exModule and nextEntry = "BFStackEntry 0"
      and st = "\<lparr>instruction = 0, distanceFromStart = 2,
                 stack = [BFStackEntry 10, BFStackEntry 0]\<rparr>"]
    doesIntroduceRecursion_iff [where M = exModule and nextEntry = "BFStackEntry 10"
      and st = "\<lparr>instruction = 10, distanceFromStart = 1, stack = [BFStackEntry 0]\<rparr>"]
  by (simp add: exModule_def)

text \<open>
  Claim C4: the popped state is at a return instruction. With a non-empty stack the step
  hands exactly one state to \<open>addToSearchQueue\<close>: at the instruction after the call site of
  the top entry, with the popped distance plus \<open>distanceToPass\<close> of the return and with the
  stack below the top entry. With an empty stack the step only removes the popped state.
\<close>

theorem return_instruction:
  assumes "searchqueue S = cur # rest"
    and "\<not> isNull M (instruction cur)"
    and "\<not> isaCallInst M (instruction cur)"
    and "isaReturnInst M (instruction cur)"
  shows "doSingleSearchIteration M C S =
     Inr (case stack cur of
            [] \<Rightarrow> S\<lparr>searchqueue := rest\<rparr>
          | e # below \<Rightarrow>
              addToSearchQueue M C (S\<lparr>searchqueue := rest\<rparr>)
                \<lparr>instruction = getNext M (call e),
                 distanceFromStart = distanceFromStart cur + distanceToPass C (instruction cur),
                 stack = below\<rparr>)"
  using assms
  by (simp add: doSingleSearchIteration_def popFromSeachQueue_def enqueueInSearchQueue_def
      split: list.splits)

theorem return_instruction_witness:
  "doSingleSearchIteration exModule (exLimits 99) (exSearcher 11 2 [0]) =
     Inr \<lparr>searchqueue = [\<lparr>instruction = 1, distanceFromStart = 3, stack = []\<rparr>],
          duplicateFilter = {}, iterationCounter = 0,
          pushed = [\<lparr>instruction = 1, distanceFromStart = 3, stack = []\<rparr>]\<rparr> \<and>
   doSingleSearchIteration exModule (exLimits 99) (exSearcher 21 1 []) =
     Inr \<lparr>searchqueue = [], duplicateFilter = {}, iterationCounter = 0, pushed = []\<rparr>"
  using return_instruction [where M = exModule and C = "exLimits 99"
      and S = "exSearcher 11 2 [0]" and rest = "[]"
      and cur = "\<lparr>instruction = 11, distanceFromStart = 2, stack = [BFStackEntry 0]\<rparr>"]
    return_instruction [where M = exModule and C = "exLimits 99"
      and S = "exSearcher 21 1 []" and rest = "[]"
      and cur = "\<lparr>instruction = 21, distanceFromStart = 1, stack = []\<rparr>"]
  by (simp add: ex_defs addToSearchQueue_def wasAddedEarlier_def
      rememberAsAdded_def bbBegin_def pq_push_def)

text \<open>
  Claim C5: for a state that is not at the first instruction of its block,
  \<open>wasAddedEarlier\<close> answers false and \<open>rememberAsAdded\<close> leaves the searcher as it is. At
  the end of a query, from either constructor, no two of the states pushed at the first
  instruction of a block have the same instruction and the same stack.
\<close>

theorem duplicate_filter_block_entries:
  "(\<not> firstInBlock M state \<longrightarrow>
      \<not> wasAddedEarlier M S state \<and> rememberAsAdded M S state = S) \<and>
   admittedOnce M (snd (searchForMinimalDistance M C (newBFSearcher M C start))) \<and>
   admittedOnce M (snd (searchForMinimalDistance M C (newBFSearcherWithStack M C start stk)))"
proof -
  have "filterInv M (snd (searchForMinimalDistance M C (newBFSearcherWithStack M C start stk)))"
    for stk
    using filterInv_new by (rule filterInv_searchForMinimalDistance)
  then show ?thesis
    by (simp add: newBFSearcher_eq filterInv_def wasAddedEarlier_def rememberAsAdded_def
        firstInBlock_def)
qed

theorem duplicate_filter_block_entries_witness:
  "\<not> firstInBlock exModule \<lparr>instruction = 21, distanceFromStart = 1, stack = []\<rparr> \<and>
   \<not> wasAddedEarlier exModule
       \<lparr>searchqueue = [], duplicateFilter = {(21, [])}, iterationCounter = 0, pushed = []\<rparr>
       \<lparr>instruction = 21, distanceFromStart = 1, stack = []\<rparr> \<and>
   rememberAsAdded exModule
       \<lparr>searchqueue = [], duplicateFilter = {(21, [])}, iterationCounter = 0, pushed = []\<rparr>
       \<lparr>instruction = 21, distanceFromStart = 1, stack = []\<rparr>
     = \<lparr>searchqueue = [], duplicateFilter = {(21, [])}, iterationCounter = 0, pushed = []\<rparr> \<and>
   admittedOnce exModule
     (snd (searchForMinimalDistance exModule (exLimits 99) (newBFSearcher exModule (exLimits 99) 0)))"
  using duplicate_filter_block_entries [where M = exModule and C = "exLimits 99" and start = 0
      and state = "\<lparr>instruction = 21, distanceFromStart = 1, stack = []\<rparr>"
      and S = "\<lparr>searchqueue = [], duplicateFilter = {(21, [])}, iterationCounter = 0,
                pushed = []\<rparr>"]
  by (simp add: firstInBlock_def bbBegin_def exModule_def)

text \<open>
  Claim C6: the popped state is at a call whose callee is unresolved, an intrinsic or
  without a body. The step hands exactly one state to \<open>addToSearchQueue\<close>: at the next
  instruction, with the popped stack and the popped distance plus \<open>distanceToPass\<close> of the
  call, once.
\<close>

theorem call_external_function:
  assumes "searchqueue S = cur # rest"
    and "\<not> isNull M (instruction cur)"
    and "isaCallInst M (instruction cur)"
    and "getCalledFunction M (instruction cur) = None \<or>
         (\<exists>F. getCalledFunction M (instruction cur) = Some F \<and>
              (isIntrinsic M F \<or> blockList M F = []))"
  shows "doSingleSearchIteration M C S =
     Inr (addToSearchQueue M C (S\<lparr>searchqueue := rest\<rparr>)
            \<lparr>instruction = getNext M (instruction cur),
             distanceFromStart = distanceFromStart cur + distanceToPass C (instruction cur),
             stack = stack cur\<rparr>)"
  using assms
  by (auto simp: doSingleSearchIteration_def popFromSeachQueue_def enqueueInSearchQueue_def)

theorem call_external_function_witness:
  "doSingleSearchIteration exModule (exLimits 99) (exSearcher 1 1 []) =
     Inr \<lparr>searchqueue = [\<lparr>instruction = 2, distanceFromStart = 2, stack = []\<rparr>],
          duplicateFilter = {}, iterationCounter = 0,
          pushed = [\<lparr>instruction = 2, distanceFromStart = 2, stack = []\<rparr>]\<rparr> \<and>
   doSingleSearchIteration exModule (exLimits 99) (exSearcher 40 0 []) =
     Inr \<lparr>searchqueue = [\<lparr>instruction = 41, distanceFromStart = 1, stack = []\<rparr>],
          duplicateFilter = {}, iterationCounter = 0,
          pushed = [\<lparr>instruction = 41, distanceFromStart = 1, stack = []\<rparr>]\<rparr> \<and>
   doSingleSearchIteration exModule (exLimits 99) (exSearcher 41 1 []) =
     Inr \<lparr>searchqueue = [\<lparr>instruction = 42, distanceFromStart = 2, stack = []\<rparr>],
          duplicateFilter = {}, iterationCounter = 0,
          pushed = [\<lparr>instruction = 42, distanceFromStart = 2, stack = []\<rparr>]\<rparr>"
  using call_external_function [where M = exModule and C = "exLimits 99"
      and S = "exSearcher 1 1 []" and rest = "[]"
      and cur = "\<lparr>instruction = 1, distanceFromStart = 1, stack = []\<rparr>"]
    call_external_function [where M = exModule and C = "exLimits 99"
      and S = "exSearcher 40 0 []" and rest = "[]"
      and cur = "\<lparr>instruction = 40, distanceFromStart = 0, stack = []\<rparr>"]
    call_external_function [where M = exModule and C = "exLimits 99"
      and S = "exSearcher 41 1 []" and rest = "[]"
      and cur = "\<lparr>instruction = 41, distanceFromStart = 1, stack = []\<rparr>"]
  by (simp add: ex_defs addToSearchQueue_def wasAddedEarlier_def
      rememberAsAdded_def bbBegin_def pq_push_def)

text \<open>
  Claim C7: over a query, the number of insertions into the frontier never exceeds
  \<open>maxQueueLength\<close> and the number of expansion steps never exceeds \<open>maxIterations\<close>.

  The first half fails. The searcher keeps no count of its insertions: the limit is compared
  with the size of the frontier at each insertion. On the straight line of block 5 of
  the example three states are pushed, one after the other, while the limit is 1.
\<close>

theorem insertions_exceed_maxQueueLength:
  "\<not> (length (pushed (snd (searchForMinimalDistance exModule (exLimits 99)
                              (newBFSearcher exModule (exLimits 99) 50))))
        \<le> unat (maxQueueLength (exLimits 99)) \<and>
      iterationCounter (snd (searchForMinimalDistance exModule (exLimits 99)
                               (newBFSearcher exModule (exLimits 99) 50)))
        \<le> maxIterations (exLimits 99))"
  by (simp add: searchForMinimalDistance.simps run_defs ex_defs)

text \<open>
  Claim C7, as amended: a query, from either constructor, ends with
  \<open>iterationCounter\<close> at most \<open>maxIterations\<close>; the counter starts at zero and counts the
  expansion steps completed. Where the run ends in a failure, inside a step, the counter
  is below \<open>maxIterations\<close>, so the step that failed is within the limit as well.
\<close>

theorem expansion_steps_bounded:
  "iterationCounter (snd (searchForMinimalDistance M C (newBFSearcher M C start)))
     \<le> maxIterations C \<and>
   iterationCounter (snd (searchForMinimalDistance M C (newBFSearcherWithStack M C start stk)))
     \<le> maxIterations C \<and>
   (fst (searchForMinimalDistance M C (newBFSearcherWithStack M C start stk)) = Inl e \<longrightarrow>
      iterationCounter (snd (searchForMinimalDistance M C (newBFSearcherWithStack M C start stk)))
        < maxIterations C)"
proof -
  have "iterationCounter (newBFSearcherWithStack M C start stk) \<le> maxIterations C" for stk
    by (simp add: newBFSearcherWithStack_def)
  then have "iterationCounter (snd (searchForMinimalDistance M C
      (newBFSearcherWithStack M C start stk))) \<le> maxIterations C" for stk
    by (rule counter_bound_searchForMinimalDistance)
  moreover have "iterationCounter (snd (searchForMinimalDistance M C
      (newBFSearcherWithStack M C start stk))) < maxIterations C"
    if "fst (searchForMinimalDistance M C (newBFSearcherWithStack M C start stk)) = Inl e"
    using failure_inside_loop [OF that] by (simp add: keepSearching_def)
  ultimately show ?thesis
    by (simp add: newBFSearcher_eq)
qed

theorem expansion_steps_bounded_witness:
  "fst (searchForMinimalDistance exModule (exLimits 99)
          (newBFSearcherWithStack exModule (exLimits 99) 30 [])) = Inl AssertionFailed \<and>
   iterationCounter (snd (searchForMinimalDistance exModule (exLimits 99)
          (newBFSearcherWithStack exModule (exLimits 99) 30 []))) < maxIterations (exLimits 99) \<and>
   iterationCounter (snd (searchForMinimalDistance exModule (exLimits 99)
          (newBFSearcher exModule (exLimits 99) 30))) \<le> maxIterations (exLimits 99)"
  using expansion_steps_bounded [where M = exModule and C = "exLimits 99" and start = 30
      and stk = "[]" and e = AssertionFailed]
  by (simp add: searchForMinimalDistance.simps run_defs ex_defs)

text \<open>
  Claim C8: when the condition of the loop fails (the frontier is empty, or its top is
  not below \<open>maxDistance\<close>, or the counter is not below \<open>maxIterations\<close>) the query returns
  \<open>UNREACHABLE\<close>. Every value a query returns is either \<open>UNREACHABLE\<close>, returned after the
  loop, or the distance of the target on top of the frontier, returned from inside the
  loop and different from \<open>UNREACHABLE\<close>; both are values of \<open>uint\<close>, hence not negative.
  A query returns such a value, and fails no assertion, whenever the program has no
  invalid handle and the stack handed to the constructor holds call instructions only.
\<close>

theorem searchForMinimalDistance_outcome:
  "(\<not> keepSearching C S \<longrightarrow> searchForMinimalDistance M C S = (Inr UNREACHABLE, S)) \<and>
   (searchForMinimalDistance M C S = (Inr v, S') \<longrightarrow>
      (\<not> keepSearching C S' \<and> v = UNREACHABLE) \<or>
      (keepSearching C S' \<and> isTheTarget C (hd (searchqueue S')) \<and>
       v = distanceFromStart (hd (searchqueue S')) \<and> v \<noteq> UNREACHABLE)) \<and>
   ((\<forall>p. \<not> isNull M p) \<and> (\<forall>it\<in>set stk. isaCallInst M (getIteratorOnInstruction M it)) \<longrightarrow>
      (\<exists>r. fst (searchForMinimalDistance M C (newBFSearcherWithStack M C start stk)) = Inr r))"
proof -
  have "(\<not> keepSearching C S' \<and> v = UNREACHABLE) \<or>
      (keepSearching C S' \<and> isTheTarget C (hd (searchqueue S')) \<and>
       v = distanceFromStart (hd (searchqueue S')) \<and> v \<noteq> UNREACHABLE)"
    if "searchForMinimalDistance M C S = (Inr v, S')"
    using searchForMinimalDistance_returns [OF that] sentinel_not_below
    by (auto simp: keepSearching_def)
  moreover have "\<exists>r. fst (searchForMinimalDistance M C (newBFSearcherWithStack M C start stk))
      = Inr r"
    if "\<forall>p. \<not> isNull M p" and "\<forall>it\<in>set stk. isaCallInst M (getIteratorOnInstruction M it)"
    using callStacks_new [OF that(2)] that(1) by (rule searchForMinimalDistance_always_returns)
  ultimately show ?thesis
    by (simp add: searchForMinimalDistance.simps [of M C S])
qed

theorem searchForMinimalDistance_outcome_witness:
  "\<not> keepSearching (exLimits 21) (exSearcher 21 100 []) \<and>
   searchForMinimalDistance exModule (exLimits 21) (exSearcher 21 100 [])
     = (Inr UNREACHABLE, exSearcher 21 100 []) \<and>
   fst (searchForMinimalDistance exModule (exLimits 21) (newBFSearcher exModule (exLimits 21) 20))
     = Inr 1 \<and>
   keepSearching (exLimits 21)
     (snd (searchForMinimalDistance exModule (exLimits 21) (newBFSearcher exModule (exLimits 21) 20))) \<and>
   (1 :: uint) \<noteq> UNREACHABLE \<and>
   fst (searchForMinimalDistance exModule (exLimits 99) (newBFSearcher exModule (exLimits 99) 20))
     = Inr UNREACHABLE \<and>
   \<not> keepSearching (exLimits 99)
     (snd (searchForMinimalDistance exModule (exLimits 99) (newBFSearcher exModule (exLimits 99) 20))) \<and>
   isaCallInst (exModule\<lparr>isNull := \<lambda>p. False\<rparr>)
     (getIteratorOnInstruction (exModule\<lparr>isNull := \<lambda>p. False\<rparr>) 0) \<and>
   fst (searchForMinimalDistance (exModule\<lparr>isNull := \<lambda>p. False\<rparr>) (exLimits 99)
          (newBFSearcherWithStack (exModule\<lparr>isNull := \<lambda>p. False\<rparr>) (exLimits 99) 10 [0]))
     = Inr UNREACHABLE"
  using searchForMinimalDistance_outcome [where M = exModule and C = "exLimits 21"
      and S = "exSearcher 21 100 []" and v = UNREACHABLE and S' = "exSearcher 21 100 []"
      and stk = "[]" and start = 0]
    searchForMinimalDistance_outcome [where M = exModule and C = "exLimits 21"
      and S = "newBFSearcher exModule (exLimits 21) 20" and v = 1
      and S' = "snd (searchForMinimalDistance exModule (exLimits 21)
                  (newBFSearcher exModule (exLimits 21) 20))"
      and stk = "[]" and start = 0]
    searchForMinimalDistance_outcome [where M = exModule and C = "exLimits 99"
      and S = "newBFSearcher exModule (exLimits 99) 20" and v = UNREACHABLE
      and S' = "snd (searchForMinimalDistance exModule (exLimits 99)
                  (newBFSearcher exModule (exLimits 99) 20))"
      and stk = "[]" and start = 0]
    searchForMinimalDistance_outcome [where M = "exModule\<lparr>isNull := \<lambda>p. False\<rparr>"
      and C = "exLimits 99" and S = "exSearcher 21 100 []" and v = UNREACHABLE
      and S' = "exSearcher 21 100 []" and stk = "[0]" and start = 10]
  by (simp add: searchForMinimalDistance.simps run_defs ex_defs)

text \<open>
  Claim C9: a step on a frontier whose top state has an instruction handle that designates
  no instruction ends in the failure of the assertion; so does the query, when the loop
  is running and that state is not the target.
\<close>

theorem invalid_instruction_aborts:
  "(searchqueue S = cur # rest \<and> isNull M (instruction cur) \<longrightarrow>
      doSingleSearchIteration M C S = Inl AssertionFailed) \<and>
   (keepSearching C S \<and> \<not> isTheTarget C (hd (searchqueue S)) \<and>
    isNull M (instruction (hd (searchqueue S))) \<longrightarrow>
      fst (searchForMinimalDistance M C S) = Inl AssertionFailed)"
proof -
  have step: "doSingleSearchIteration M C S = Inl AssertionFailed"
    if "searchqueue S \<noteq> []" and "isNull M (instruction (hd (searchqueue S)))" for S
    using that
    by (cases "searchqueue S") (simp_all add: doSingleSearchIteration_def popFromSeachQueue_def)
  show ?thesis
    using step [of S]
    by (auto simp: searchForMinimalDistance.simps [of M C S] keepSearching_def)
qed

theorem invalid_instruction_aborts_witness:
  "isNull exModule 39 \<and> keepSearching (exLimits 99) (exSearcher 39 2 []) \<and>
   doSingleSearchIteration exModule (exLimits 99) (exSearcher 39 2 []) = Inl AssertionFailed \<and>
   fst (searchForMinimalDistance exModule (exLimits 99) (exSearcher 39 2 [])) = Inl AssertionFailed"
  using invalid_instruction_aborts [where M = exModule and C = "exLimits 99"
      and S = "exSearcher 39 2 []" and rest = "[]"
      and cur = "\<lparr>instruction = 39, distanceFromStart = 2, stack = []\<rparr>"]
  by (simp add: ex_defs keepSearching_def)

text \<open>
  Claim C10: a value returned other than \<open>UNREACHABLE\<close> is below \<open>maxDistance\<close>. When the top
  of the frontier is at \<open>maxDistance\<close> or beyond, the query returns \<open>UNREACHABLE\<close> at once,
  whether or not that state is the target.
\<close>

theorem found_below_maxDistance:
  "(fst (searchForMinimalDistance M C S) = Inr v \<and> v \<noteq> UNREACHABLE \<longrightarrow> v < maxDistance C) \<and>
   (searchqueue S \<noteq> [] \<and> maxDistance C \<le> distanceFromStart (hd (searchqueue S)) \<longrightarrow>
      searchForMinimalDistance M C S = (Inr UNREACHABLE, S))"
proof -
  have "v < maxDistance C"
    if "fst (searchForMinimalDistance M C S) = Inr v" and "v \<noteq> UNREACHABLE"
  proof -
    from that(1) obtain S' where "searchForMinimalDistance M C S = (Inr v, S')"
      by (cases "searchForMinimalDistance M C S") simp
    from searchForMinimalDistance_returns [OF this] that(2) show ?thesis
      by (auto simp: keepSearching_def)
  qed
  moreover have "searchForMinimalDistance M C S = (Inr UNREACHABLE, S)"
    if "maxDistance C \<le> distanceFromStart (hd (searchqueue S))"
  proof -
    from that have "\<not> keepSearching C S"
      by (simp add: keepSearching_def leD)
    then show ?thesis
      by (simp add: searchForMinimalDistance.simps [of M C S])
  qed
  ultimately show ?thesis
    by blast
qed

theorem found_below_maxDistance_witness:
  "fst (searchForMinimalDistance exModule (exLimits 21) (newBFSearcher exModule (exLimits 21) 20))
     = Inr 1 \<and>
   (1 :: uint) < maxDistance (exLimits 21) \<and>
   isTheTarget (exLimits 21) (hd (searchqueue (exSearcher 21 100 []))) \<and>
   maxDistance (exLimits 21) \<le> distanceFromStart (hd (searchqueue (exSearcher 21 100 []))) \<and>
   searchForMinimalDistance exModule (exLimits 21) (exSearcher 21 100 [])
     = (Inr UNREACHABLE, exSearcher 21 100 [])"
  using found_below_maxDistance [where M = exModule and C = "exLimits 21"
      and S = "newBFSearcher exModule (exLimits 21) 20" and v = 1]
    found_below_maxDistance [where M = exModule and C = "exLimits 21"
      and S = "exSearcher 21 100 []"]
  by (simp add: searchForMinimalDistance.simps run_defs ex_defs)

end
